theory Spec2Isabelle
  imports Complex_Main
begin

section \<open>FFMpegSplit: the timing file parser of \<^verbatim>\<open>main.py\<close>\<close>

text \<open>
  The development embeds the parsing half of \<^verbatim>\<open>main.py\<close>: \<^verbatim>\<open>parse_time\<close>,
  \<^verbatim>\<open>parse_track\<close>, \<^verbatim>\<open>get_next_line\<close> and \<^verbatim>\<open>get_timings\<close>.

  Conventions of the embedding.
  \<^item> A Python \<^verbatim>\<open>str\<close> is a \<open>string\<close>; a character stands for the code point of the same
    number, so the model covers the code points below 256. In that range the decimal
    digits of \<^verbatim>\<open>\d\<close> and \<^verbatim>\<open>int()\<close> are \<^verbatim>\<open>0\<close> to \<^verbatim>\<open>9\<close>, and the white space of
    \<^verbatim>\<open>str.strip()\<close> is the set listed in \<open>is_space\<close>.
  \<^item> A Python number (an \<^verbatim>\<open>int\<close>, or the \<^verbatim>\<open>float\<close> that \<^verbatim>\<open>int / 1000\<close> makes) is a
    rational: \<^verbatim>\<open>+\<close>, \<^verbatim>\<open>*\<close> and \<^verbatim>\<open>/\<close> are exact, the rounding and the range of binary
    floating point are not part of the model.
  \<^item> A function that returns either a value or an error string returns a sum, with
    \<open>Inl\<close> for the error; \<^verbatim>\<open>parse_time\<close>, which returns a number or \<^verbatim>\<open>False\<close>, returns an
    option.
\<close>

subsection \<open>Characters and digit strings\<close>

definition is_digit :: "char \<Rightarrow> bool" where
  "is_digit c \<longleftrightarrow> c \<in> set ''0123456789''"

definition digit_val :: "char \<Rightarrow> int" where
  "digit_val c = int (of_char c) - 48"

text \<open>\<^verbatim>\<open>int(s)\<close> on a string of decimal digits.\<close>

definition int_of_str :: "string \<Rightarrow> int" where
  "int_of_str ds = foldl (\<lambda>n c. 10 * n + digit_val c) 0 ds"

subsection \<open>The regular expression \<^verbatim>\<open>TIME_RE\<close>\<close>

text \<open>
  \<^verbatim>\<open>^(?:(?:(?P<H>\d\d):)?(?P<M>\d\d):)?(?P<S>\d\d)(?:(?:\.)(?P<ms>\d+))?$\<close>

  The matcher below follows the expression piece by piece and tries the alternatives in
  the order of a backtracking engine: an optional group is tried first and skipped only
  when the rest fails. A match is the record of its four named groups.
\<close>

record time_match =
  grp_H :: "string option"
  grp_M :: "string option"
  grp_S :: string
  grp_ms :: "string option"

text \<open>\<^verbatim>\<open>\d\d\<close>: the two digits and the rest of the input.\<close>

definition two_digits :: "string \<Rightarrow> (string \<times> string) option" where
  "two_digits s =
     (case s of
        a # b # rest \<Rightarrow> if is_digit a \<and> is_digit b then Some ([a, b], rest) else None
      | _ \<Rightarrow> None)"

text \<open>The literal \<^verbatim>\<open>:\<close>.\<close>

definition colon :: "string \<Rightarrow> string option" where
  "colon s = (case s of c # rest \<Rightarrow> if c = CHR '':'' then Some rest else None | [] \<Rightarrow> None)"

text \<open>
  \<^verbatim>\<open>$\<close> without \<^verbatim>\<open>re.MULTILINE\<close>: the end of the string, or the place before a newline
  that ends the string.
\<close>

definition at_end :: "string \<Rightarrow> bool" where
  "at_end s \<longleftrightarrow> s = [] \<or> s = [CHR 0x0A]"

text \<open>
  \<^verbatim>\<open>\.(?P<ms>\d+)$\<close>. The greedy \<^verbatim>\<open>\d+\<close> takes every digit; giving one back leaves a
  digit in front of \<^verbatim>\<open>$\<close>, which then fails, so only the longest run can match.
\<close>

definition dot_digits :: "string \<Rightarrow> string option" where
  "dot_digits s =
     (case s of
        c # r \<Rightarrow>
          if c = CHR ''.'' \<and> takeWhile is_digit r \<noteq> [] \<and> at_end (dropWhile is_digit r)
          then Some (takeWhile is_digit r) else None
      | [] \<Rightarrow> None)"

text \<open>\<^verbatim>\<open>(?:(?:\.)(?P<ms>\d+))?$\<close>: the group \<^verbatim>\<open>ms\<close> of a match, if there is a match.\<close>

definition match_frac :: "string \<Rightarrow> string option option" where
  "match_frac s =
     (case dot_digits s of
        Some ds \<Rightarrow> Some (Some ds)
      | None \<Rightarrow> if at_end s then Some None else None)"

text \<open>\<^verbatim>\<open>(?P<S>\d\d)(?:(?:\.)(?P<ms>\d+))?$\<close>, after a prefix that set \<open>h\<close> and \<open>m\<close>.\<close>

definition match_S :: "string option \<Rightarrow> string option \<Rightarrow> string \<Rightarrow> time_match option" where
  "match_S h m s =
     (case two_digits s of
        None \<Rightarrow> None
      | Some (sec, r) \<Rightarrow>
          (case match_frac r of
             None \<Rightarrow> None
           | Some ms \<Rightarrow> Some \<lparr>grp_H = h, grp_M = m, grp_S = sec, grp_ms = ms\<rparr>))"

text \<open>\<^verbatim>\<open>(?P<M>\d\d):\<close> and the rest.\<close>

definition match_M :: "string option \<Rightarrow> string \<Rightarrow> time_match option" where
  "match_M h s =
     (case two_digits s of
        None \<Rightarrow> None
      | Some (mi, r) \<Rightarrow> (case colon r of None \<Rightarrow> None | Some r' \<Rightarrow> match_S h (Some mi) r'))"

text \<open>\<^verbatim>\<open>(?P<H>\d\d):\<close> and the rest.\<close>

definition match_H :: "string \<Rightarrow> time_match option" where
  "match_H s =
     (case two_digits s of
        None \<Rightarrow> None
      | Some (h, r) \<Rightarrow> (case colon r of None \<Rightarrow> None | Some r' \<Rightarrow> match_M (Some h) r'))"

text \<open>
  \<^verbatim>\<open>TIME_RE.match(time)\<close>: with hours and minutes, else with minutes only, else with
  seconds only; \<open>None\<close> when nothing matches.
\<close>

definition TIME_RE_match :: "string \<Rightarrow> time_match option" where
  "TIME_RE_match s =
     (case match_H s of
        Some g \<Rightarrow> Some g
      | None \<Rightarrow> (case match_M None s of Some g \<Rightarrow> Some g | None \<Rightarrow> match_S None None s))"

subsection \<open>\<^verbatim>\<open>parse_time\<close>\<close>

text \<open>The result \<^verbatim>\<open>False\<close> is \<open>None\<close>; a time of zero seconds is \<open>Some 0\<close>.\<close>

definition parse_time :: "string \<Rightarrow> rat option" where
  "parse_time time =
     (case TIME_RE_match time of
        None \<Rightarrow> None
      | Some m \<Rightarrow>
          (let seconds = of_int (int_of_str (grp_S m));
               seconds = (case grp_H m of
                            Some h \<Rightarrow> seconds + of_int (int_of_str h) * 3600
                          | None \<Rightarrow> seconds);
               seconds = (case grp_M m of
                            Some mi \<Rightarrow> seconds + of_int (int_of_str mi) * 60
                          | None \<Rightarrow> seconds);
               seconds = (case grp_ms m of
                            Some ms \<Rightarrow> seconds + of_int (int_of_str ms) / 1000
                          | None \<Rightarrow> seconds)
           in Some seconds))"

subsection \<open>\<^verbatim>\<open>parse_track\<close>\<close>

text \<open>
  \<^verbatim>\<open>s.split(sep)\<close> for a separator of one character. The result is never the empty list
  (lemma \<open>split_sep_nonempty\<close>), so the last branch is never taken.
\<close>

fun split_sep :: "char \<Rightarrow> string \<Rightarrow> string list" where
  "split_sep sep [] = [[]]"
| "split_sep sep (c # cs) =
     (if c = sep then [] # split_sep sep cs
      else (case split_sep sep cs of
              part # parts \<Rightarrow> (c # part) # parts
            | [] \<Rightarrow> [[c]]))"

text \<open>The dictionary that \<^verbatim>\<open>parse_track\<close> returns; \<^verbatim>\<open>None\<close> is \<open>None\<close>.\<close>

record track =
  start_time :: rat
  end_time :: "rat option"
  song_name :: string
  artist :: "string option"

text \<open>
  The three error strings of \<^verbatim>\<open>parse_track\<close>, templates that \<^verbatim>\<open>get_timings\<close> fills with the
  timing file and the line number:
  \<^item> \<open>NeedStartAndName\<close>: \<^verbatim>\<open>'%s' at line %d must have a start time and a song name\<close>
  \<^item> \<open>BadStartTime\<close>: \<^verbatim>\<open>'%s' at line %d must follow the correct time syntax in the start time\<close>
  \<^item> \<open>NeedName\<close>: \<^verbatim>\<open>'%s' at line %d must have a song name\<close>
\<close>

datatype track_error = NeedStartAndName | BadStartTime | NeedName

definition parse_track :: "string \<Rightarrow> track_error + track" where
  "parse_track line =
     (let parts = split_sep CHR ''|'' line in
      if length parts < 2 then Inl NeedStartAndName
      else
        (case parse_time (parts ! 0) of
           None \<Rightarrow> Inl BadStartTime
         | Some start \<Rightarrow>
             (let (ending, name_index) =
                    (case parse_time (parts ! 1) of
                       None \<Rightarrow> (None, 1)
                     | Some e \<Rightarrow> (Some e, 2))
              in if name_index \<ge> length parts then Inl NeedName
                 else Inr \<lparr>start_time = start, end_time = ending,
                           song_name = parts ! name_index,
                           artist = (if name_index + 1 < length parts
                                     then Some (parts ! (name_index + 1)) else None)\<rparr>)))"

subsection \<open>\<^verbatim>\<open>get_next_line\<close>\<close>

text \<open>
  The open file is the list of the lines it still holds, each as \<^verbatim>\<open>readline()\<close> returns
  it (with its newline, which only the last line of a file may lack). At the end of the
  file \<^verbatim>\<open>readline()\<close> returns the empty string, again and again.
\<close>

type_synonym reader = "string list"

definition readline :: "reader \<Rightarrow> string \<times> reader" where
  "readline reader = (case reader of [] \<Rightarrow> ([], []) | l # ls \<Rightarrow> (l, ls))"

text \<open>White space for \<^verbatim>\<open>str.strip()\<close>, by code point.\<close>

definition is_space :: "char \<Rightarrow> bool" where
  "is_space c \<longleftrightarrow> (of_char c :: nat) \<in> {9, 10, 11, 12, 13, 28, 29, 30, 31, 32, 133, 160}"

definition strip :: "string \<Rightarrow> string" where
  "strip s = rev (dropWhile is_space (rev (dropWhile is_space s)))"

text \<open>The test \<^verbatim>\<open>line and line[0] == "#"\<close>: a line whose first character is \<^verbatim>\<open>#\<close>.\<close>

definition is_comment :: "string \<Rightarrow> bool" where
  "is_comment line \<longleftrightarrow> line \<noteq> [] \<and> hd line = CHR ''#''"

text \<open>The loop \<^verbatim>\<open>while line and line[0] == "#"\<close>, from the line read before it.\<close>

function comment_loop :: "string \<Rightarrow> nat \<Rightarrow> reader \<Rightarrow> (string \<times> nat) \<times> reader" where
  "comment_loop line count reader =
     (if is_comment line
      then (case readline reader of
              (line', reader') \<Rightarrow> comment_loop line' (count + 1) reader')
      else ((line, count), reader))"
  by pat_completeness auto
termination
  by (relation "measure (\<lambda>(line, count, reader).
        length reader + (if is_comment line then 1 else 0))")
     (auto simp: readline_def is_comment_def split: list.splits)

declare comment_loop.simps [simp del]

definition get_next_line :: "reader \<Rightarrow> (string \<times> nat) \<times> reader" where
  "get_next_line reader =
     (case readline reader of
        (line, reader1) \<Rightarrow>
          (case comment_loop line 1 reader1 of
             ((line', count), reader2) \<Rightarrow> ((strip line', count), reader2)))"

text \<open>
  What \<^verbatim>\<open>get_next_line\<close> returns, in closed form: the comment lines at the head of the
  reader are dropped and counted, the line after them is returned stripped (the empty
  string when the file has ended), and the count includes that line.
\<close>

lemma is_comment_Nil: "\<not> is_comment []"
  by (simp add: is_comment_def)

lemma comment_loop_eq:
  "comment_loop line count reader =
     ((case dropWhile is_comment (line # reader) of [] \<Rightarrow> [] | l # _ \<Rightarrow> l,
       count + length (takeWhile is_comment (line # reader))),
      tl (dropWhile is_comment (line # reader)))"
proof (induction line count reader rule: comment_loop.induct)
  case (1 line count reader)
  show ?case
  proof (cases "is_comment line")
    case False
    then show ?thesis
      by (simp add: comment_loop.simps [of line])
  next
    case True
    show ?thesis
    proof (cases reader)
      case Nil
      with True show ?thesis
        by (simp add: comment_loop.simps [of line] comment_loop.simps [of "[]"]
              is_comment_Nil readline_def)
    next
      case (Cons l ls)
      with True 1 show ?thesis
        by (simp add: comment_loop.simps [of line] readline_def)
    qed
  qed
qed

lemma get_next_line_eq:
  "get_next_line reader =
     ((strip (case dropWhile is_comment reader of [] \<Rightarrow> [] | l # _ \<Rightarrow> l),
       Suc (length (takeWhile is_comment reader))),
      tl (dropWhile is_comment reader))"
proof (cases reader)
  case Nil
  then show ?thesis
    by (simp add: get_next_line_def readline_def comment_loop_eq is_comment_Nil)
next
  case (Cons l ls)
  then show ?thesis
    by (simp add: get_next_line_def readline_def comment_loop_eq)
qed

lemma strip_Nil: "strip [] = []"
  by (simp add: strip_def)

lemma get_next_line_shorter:
  assumes "get_next_line reader = ((line, lines), reader')"
  shows "length reader' + (if line \<noteq> [] then 1 else 0) \<le> length reader"
proof -
  have "length (dropWhile is_comment reader) \<le> length reader"
    by (rule length_dropWhile_le)
  with assms show ?thesis
    by (cases "dropWhile is_comment reader") (auto simp: get_next_line_eq strip_Nil)
qed

subsection \<open>\<^verbatim>\<open>get_timings\<close>\<close>

text \<open>
  The two error strings that \<^verbatim>\<open>get_timings\<close> returns, with what fills them:
  \<^item> \<open>MusicFileMissing music_file timing_file\<close>:
    \<^verbatim>\<open>The given music file '%s' in '%s' doesn't exist\<close>
  \<^item> \<open>TrackError err timing_file line_num\<close>: the template \<open>err\<close> of \<^verbatim>\<open>parse_track\<close>,
    filled by \<^verbatim>\<open>track % (timing_file, line_num)\<close>.
\<close>

datatype diagnostic =
    MusicFileMissing string string
  | TrackError track_error string nat

text \<open>
  The loop \<^verbatim>\<open>while line\<close> of \<^verbatim>\<open>get_timings\<close>, from the first line read for it: it ends at
  the first line that is empty once stripped, which is also what the end of the file
  looks like.
\<close>

function track_loop ::
  "string \<Rightarrow> string \<Rightarrow> nat \<Rightarrow> reader \<Rightarrow> track list \<Rightarrow> diagnostic + track list" where
  "track_loop timing_file line line_num reader tracks =
     (if line \<noteq> [] then
        (case parse_track line of
           Inl err \<Rightarrow> Inl (TrackError err timing_file line_num)
         | Inr track \<Rightarrow>
             (case get_next_line reader of
                ((line', lines), reader') \<Rightarrow>
                  track_loop timing_file line' (line_num + lines) reader' (tracks @ [track])))
      else Inr tracks)"
  by pat_completeness auto
termination
  apply (relation "measure (\<lambda>(timing_file, line, line_num, reader, tracks).
          length reader + (if line \<noteq> [] then 1 else 0))")
   apply simp
  apply clarsimp
  apply (drule sym [of _ "get_next_line _"])
  apply (drule get_next_line_shorter)
  apply (simp split: if_splits)
  done

declare track_loop.simps [simp del]


text \<open>
  The pass \<^verbatim>\<open>for (i, track) in enumerate(tracks["tracks"][:-1])\<close>. The slice shares its
  dictionaries with the list, so assigning \<^verbatim>\<open>track["end_time"]\<close> updates the list at \<open>i\<close>.
\<close>

definition adjust_end_times :: "track list \<Rightarrow> track list" where
  "adjust_end_times tracks =
     (if length tracks > 1
      then fold (\<lambda>i ts. if end_time (ts ! i) = None
                         then ts[i := (ts ! i)\<lparr>end_time := Some (start_time (ts ! (i + 1)))\<rparr>]
                         else ts)
             [0..<length tracks - 1] tracks
      else tracks)"

text \<open>The dictionary that \<^verbatim>\<open>get_timings\<close> returns.\<close>

record timings =
  tracks :: "track list"
  music_file :: string

text \<open>
  \<^verbatim>\<open>get_timings\<close>, on the lines of the opened timing file. The file system is the
  predicate \<open>file_exists\<close>, asked once, about the first line that is not a comment; the
  normal form that \<^verbatim>\<open>Path\<close> gives a path is not modelled.
\<close>

definition get_timings :: "(string \<Rightarrow> bool) \<Rightarrow> string \<Rightarrow> reader \<Rightarrow> diagnostic + timings" where
  "get_timings file_exists timing_file reader =
     (case get_next_line reader of
        ((line, lines), reader1) \<Rightarrow>
          if \<not> file_exists line then Inl (MusicFileMissing line timing_file)
          else
            (case get_next_line reader1 of
               ((line', next_lines), reader2) \<Rightarrow>
                 (case track_loop timing_file line' (lines + next_lines) reader2 [] of
                    Inl message \<Rightarrow> Inl message
                  | Inr ts \<Rightarrow> Inr \<lparr>tracks = adjust_end_times ts, music_file = line\<rparr>)))"

subsection \<open>Two definitions for the proofs\<close>

text \<open>One turn of the loop of \<open>adjust_end_times\<close>, at the index \<open>i\<close>.\<close>

definition fill_end :: "nat \<Rightarrow> track list \<Rightarrow> track list" where
  "fill_end i ts =
     (if end_time (ts ! i) = None
      then ts[i := (ts ! i)\<lparr>end_time := Some (start_time (ts ! (i + 1)))\<rparr>]
      else ts)"

text \<open>
  Reading the next line and entering the loop with it, after \<open>lines\<close> lines of the file
  have been read: the step that \<^verbatim>\<open>get_timings\<close> makes before the loop and at the end of
  each turn. On the reader it is a recursion over the lines.
\<close>

definition read_loop :: "string \<Rightarrow> nat \<Rightarrow> reader \<Rightarrow> track list \<Rightarrow> diagnostic + track list" where
  "read_loop timing_file lines reader ts =
     (case get_next_line reader of
        ((line, next_lines), reader') \<Rightarrow>
          track_loop timing_file line (lines + next_lines) reader' ts)"

section \<open>Properties of \<^verbatim>\<open>parse_time\<close>\<close>

subsection \<open>The matcher on the strings of the grammar\<close>

lemma two_digits_Cons:
  "is_digit a \<Longrightarrow> is_digit b \<Longrightarrow> two_digits (a # b # r) = Some ([a, b], r)"
  by (simp add: two_digits_def)

lemma colon_simps:
  "colon [] = None" "colon (CHR '':'' # r) = Some r" "colon (CHR ''.'' # r) = None"
  by (simp_all add: colon_def)

lemma match_frac_Nil: "match_frac [] = Some None"
  by (simp add: match_frac_def dot_digits_def at_end_def)

lemma match_frac_dot:
  assumes "ds \<noteq> []" "\<forall>c\<in>set ds. is_digit c"
  shows "match_frac (CHR ''.'' # ds) = Some (Some ds)"
proof -
  have "takeWhile is_digit ds = ds" "dropWhile is_digit ds = []"
    using assms(2) by simp_all
  then show ?thesis
    unfolding match_frac_def dot_digits_def list.case
    using assms(1) by (simp add: at_end_def del: takeWhile_eq_all_conv dropWhile_eq_Nil_conv)
qed

lemma match_S_plain: "is_digit a \<Longrightarrow> is_digit b \<Longrightarrow>
  match_S h m [a, b] = Some \<lparr>grp_H = h, grp_M = m, grp_S = [a, b], grp_ms = None\<rparr>"
  by (simp add: match_S_def two_digits_Cons match_frac_Nil)

lemma match_S_frac: "is_digit a \<Longrightarrow> is_digit b \<Longrightarrow> ds \<noteq> [] \<Longrightarrow> \<forall>c\<in>set ds. is_digit c \<Longrightarrow>
  match_S h m (a # b # CHR ''.'' # ds) = Some \<lparr>grp_H = h, grp_M = m, grp_S = [a, b], grp_ms = Some ds\<rparr>"
  by (simp add: match_S_def two_digits_Cons match_frac_dot)

lemma match_M_colon: "is_digit a \<Longrightarrow> is_digit b \<Longrightarrow>
  match_M h (a # b # CHR '':'' # r) = match_S h (Some [a, b]) r"
  by (simp add: match_M_def two_digits_Cons colon_simps)

lemma match_M_fail: "is_digit a \<Longrightarrow> is_digit b \<Longrightarrow>
  match_M h [a, b] = None \<and> match_M h (a # b # CHR ''.'' # r) = None"
  by (simp add: match_M_def two_digits_Cons colon_simps)

lemma match_H_colon: "is_digit a \<Longrightarrow> is_digit b \<Longrightarrow>
  match_H (a # b # CHR '':'' # r) = match_M (Some [a, b]) r"
  by (simp add: match_H_def two_digits_Cons colon_simps)

lemma match_H_fail: "is_digit a \<Longrightarrow> is_digit b \<Longrightarrow>
  match_H [a, b] = None \<and> match_H (a # b # CHR ''.'' # r) = None"
  by (simp add: match_H_def two_digits_Cons colon_simps)

lemmas time_re_simps = TIME_RE_match_def match_H_colon match_H_fail match_M_colon match_M_fail
  match_S_plain match_S_frac

subsection \<open>Strings of the grammar\<close>




subsection \<open>Seconds of one digit\<close>

text \<open>
  C2 as the specification states it: \<^verbatim>\<open>parse_time("3.12")\<close> is 3.012. The expression asks
  for two digits of seconds, so \<^verbatim>\<open>3.12\<close> does not match and the result is \<^verbatim>\<open>False\<close>.
\<close>

theorem parse_time_one_digit_seconds_counterexample:
  "parse_time ''3.12'' \<noteq> Some (3 + 12 / 1000)"
  by code_simp

text \<open>
  C2 (as amended). \<^verbatim>\<open>parse_time("03.12")\<close> is \<open>3 + 12 / 1000\<close>, that is 3.012: the two digits
  after the dot are twelve thousandths. \<^verbatim>\<open>parse_time("3.12")\<close> is the invalid result.
\<close>

theorem parse_time_two_digit_seconds:
  "parse_time ''03.12'' = Some (3 + 12 / 1000) \<and> parse_time ''3.12'' = None"
  by code_simp

subsection \<open>No range check\<close>

text \<open>
  C10. \<^verbatim>\<open>parse_time\<close> checks no range: whatever the two digits of the hours, the minutes
  and the seconds are, sixty and more included, the string is accepted and each pair
  counts with its full value. So \<^verbatim>\<open>parse_time("99:99")\<close> is \<open>99 * 60 + 99 = 6039\<close>.
\<close>

theorem parse_time_no_range_check:
  assumes "is_digit h1" "is_digit h2" "is_digit m1" "is_digit m2" "is_digit s1" "is_digit s2"
  shows "parse_time ([h1, h2] @ '':'' @ [m1, m2] @ '':'' @ [s1, s2]) =
          Some (of_int (int_of_str [h1, h2]) * 3600 + of_int (int_of_str [m1, m2]) * 60
                + of_int (int_of_str [s1, s2]))
    \<and> parse_time ([m1, m2] @ '':'' @ [s1, s2]) =
          Some (of_int (int_of_str [m1, m2]) * 60 + of_int (int_of_str [s1, s2]))
    \<and> parse_time [s1, s2] = Some (of_int (int_of_str [s1, s2]))
    \<and> parse_time ''99:99'' = Some (99 * 60 + 99)
    \<and> parse_time ''99:99'' = Some 6039"
proof -
  have example: "parse_time ''99:99'' = Some 6039"
    by code_simp
  show ?thesis
    using assms example by (simp add: parse_time_def time_re_simps)
qed

text \<open>The theorem at \<^verbatim>\<open>75:80:90\<close>, \<^verbatim>\<open>80:90\<close> and \<^verbatim>\<open>90\<close>.\<close>

theorem parse_time_no_range_check_witness:
  "parse_time ''75:80:90'' = Some (75 * 3600 + 80 * 60 + 90)
   \<and> parse_time ''80:90'' = Some (80 * 60 + 90)
   \<and> parse_time ''90'' = Some 90"
  using parse_time_no_range_check [of "CHR ''7''" "CHR ''5''" "CHR ''8''" "CHR ''0''"
      "CHR ''9''" "CHR ''0''"]
  by (simp add: is_digit_def int_of_str_def digit_val_def)

section \<open>Properties of \<^verbatim>\<open>parse_track\<close>\<close>

subsection \<open>The cases of \<^verbatim>\<open>parse_track\<close>\<close>

lemma split_sep_nonempty: "split_sep sep s \<noteq> []"
  by (induction s) (simp_all split: list.splits)

lemma parse_track_cases:
  "parse_track line =
     (if length (split_sep CHR ''|'' line) < 2 then Inl NeedStartAndName
      else case parse_time (split_sep CHR ''|'' line ! 0) of
             None \<Rightarrow> Inl BadStartTime
           | Some start \<Rightarrow>
               (case parse_time (split_sep CHR ''|'' line ! 1) of
                  None \<Rightarrow>
                    Inr \<lparr>start_time = start, end_time = None,
                         song_name = split_sep CHR ''|'' line ! 1,
                         artist = (if 2 < length (split_sep CHR ''|'' line)
                                   then Some (split_sep CHR ''|'' line ! 2) else None)\<rparr>
                | Some e \<Rightarrow>
                    if length (split_sep CHR ''|'' line) \<le> 2 then Inl NeedName
                    else Inr \<lparr>start_time = start, end_time = Some e,
                              song_name = split_sep CHR ''|'' line ! 2,
                              artist = (if 3 < length (split_sep CHR ''|'' line)
                                        then Some (split_sep CHR ''|'' line ! 3) else None)\<rparr>))"
  by (simp add: parse_track_def Let_def numeral_2_eq_2 numeral_3_eq_3 not_less
        split: option.splits)

subsection \<open>The second field: end time or song name\<close>

text \<open>
  C4. Take a line with at least two fields whose first field is a time. When the second
  field is not a time, it is the song name, the end time is absent and the third field,
  if there is one, is the artist. When the second field is a time, it is the end time:
  the third field is then the song name and the fourth the artist, and a line with no
  third field is an error. So \<^verbatim>\<open>10|Song\<close> has start 10, no end time, the song name
  \<^verbatim>\<open>Song\<close> and no artist, and \<^verbatim>\<open>10|Song|Artist\<close> has the artist \<^verbatim>\<open>Artist\<close> besides.
\<close>

theorem parse_track_second_field:
  assumes "parts = split_sep CHR ''|'' line" "2 \<le> length parts"
    and "parse_time (parts ! 0) = Some start"
  shows "(parse_time (parts ! 1) = None \<longrightarrow>
            parse_track line =
              Inr \<lparr>start_time = start, end_time = None, song_name = parts ! 1,
                   artist = (if 2 < length parts then Some (parts ! 2) else None)\<rparr>)
       \<and> (\<forall>e. parse_time (parts ! 1) = Some e \<longrightarrow>
            parse_track line =
              (if length parts = 2 then Inl NeedName
               else Inr \<lparr>start_time = start, end_time = Some e, song_name = parts ! 2,
                         artist = (if 3 < length parts then Some (parts ! 3) else None)\<rparr>))
       \<and> parse_track ''10|Song'' =
            Inr \<lparr>start_time = 10, end_time = None, song_name = ''Song'', artist = None\<rparr>
       \<and> parse_track ''10|Song|Artist'' =
            Inr \<lparr>start_time = 10, end_time = None, song_name = ''Song'',
                 artist = Some ''Artist''\<rparr>"
proof -
  have ex1: "parse_track ''10|Song'' =
      Inr \<lparr>start_time = 10, end_time = None, song_name = ''Song'', artist = None\<rparr>"
    by code_simp
  have ex2: "parse_track ''10|Song|Artist'' =
      Inr \<lparr>start_time = 10, end_time = None, song_name = ''Song'', artist = Some ''Artist''\<rparr>"
    by code_simp
  show ?thesis
    using assms ex1 ex2 by (auto simp: parse_track_cases)
qed

text \<open>The theorem at \<^verbatim>\<open>10|20|Song|Artist\<close>, \<^verbatim>\<open>10|20\<close> and \<^verbatim>\<open>10|2x|Artist\<close>.\<close>

theorem parse_track_second_field_witness:
  "parse_track ''10|20|Song|Artist'' =
     Inr \<lparr>start_time = 10, end_time = Some 20, song_name = ''Song'', artist = Some ''Artist''\<rparr>
   \<and> parse_track ''10|20'' = Inl NeedName
   \<and> parse_track ''10|2x|Artist'' =
     Inr \<lparr>start_time = 10, end_time = None, song_name = ''2x'', artist = Some ''Artist''\<rparr>"
proof -
  have a: "split_sep CHR ''|'' ''10|20|Song|Artist'' = [''10'', ''20'', ''Song'', ''Artist'']"
    by simp
  have b: "split_sep CHR ''|'' ''10|20'' = [''10'', ''20'']"
    by simp
  have c: "split_sep CHR ''|'' ''10|2x|Artist'' = [''10'', ''2x'', ''Artist'']"
    by simp
  have t10: "parse_time ''10'' = Some 10" by code_simp
  have t20: "parse_time ''20'' = Some 20" by code_simp
  have t2x: "parse_time ''2x'' = None" by code_simp
  show ?thesis
    using parse_track_second_field [of "[''10'', ''20'', ''Song'', ''Artist'']" "''10|20|Song|Artist''" 10]
      parse_track_second_field [of "[''10'', ''20'']" "''10|20''" 10]
      parse_track_second_field [of "[''10'', ''2x'', ''Artist'']" "''10|2x|Artist''" 10]
      a b c t10 t20 t2x
    by simp
qed

subsection \<open>The song name\<close>

text \<open>
  C5 as the specification states it: a line whose song name field is empty gives an error.
  The line \<^verbatim>\<open>10|\<close> has the two fields \<^verbatim>\<open>10\<close> and the empty string; \<^verbatim>\<open>parse_track\<close> returns
  a track whose song name is empty.
\<close>

theorem parse_track_empty_song_name_counterexample:
  "parse_track ''10|'' =
     Inr \<lparr>start_time = 10, end_time = None, song_name = [], artist = None\<rparr>"
  by code_simp

text \<open>
  C5 (as amended). \<^verbatim>\<open>parse_track\<close> returns an error exactly when the line has fewer than
  two fields, or its first field is not a time, or its second field is a time and there
  is no third field to be the song name. A line with fewer than two fields gives the
  error of the start time and song name. The song name is checked for presence only: a
  line whose first field is a time and whose second field is empty gives a track with
  the empty song name.
\<close>

theorem parse_track_diagnostic_iff:
  assumes "parts = split_sep CHR ''|'' line"
  shows "((\<exists>err. parse_track line = Inl err) \<longleftrightarrow>
            length parts < 2 \<or> parse_time (parts ! 0) = None
            \<or> (parse_time (parts ! 1) \<noteq> None \<and> length parts = 2))
       \<and> (length parts < 2 \<longrightarrow> parse_track line = Inl NeedStartAndName)
       \<and> (2 \<le> length parts \<and> parse_time (parts ! 0) \<noteq> None \<and> parts ! 1 = [] \<longrightarrow>
            (\<exists>t. parse_track line = Inr t \<and> song_name t = []))"
proof -
  have "parse_time [] = None" by code_simp
  then show ?thesis
  using assms by (auto simp: parse_track_cases split: option.splits)
qed

text \<open>The theorem at \<^verbatim>\<open>10\<close>, \<^verbatim>\<open>10|20\<close> and \<^verbatim>\<open>10|\<close>.\<close>

theorem parse_track_diagnostic_iff_witness:
  "parse_track ''10'' = Inl NeedStartAndName
   \<and> (\<exists>err. parse_track ''10|20'' = Inl err)
   \<and> (\<exists>t. parse_track ''10|'' = Inr t \<and> song_name t = [])"
proof -
  have a: "split_sep CHR ''|'' ''10'' = [''10'']" by simp
  have b: "split_sep CHR ''|'' ''10|20'' = [''10'', ''20'']" by simp
  have c: "split_sep CHR ''|'' ''10|'' = [''10'', '''']" by simp
  have t10: "parse_time ''10'' = Some 10" by code_simp
  have t20: "parse_time ''20'' = Some 20" by code_simp
  show ?thesis
    using parse_track_diagnostic_iff [of "[''10'']" "''10''"]
      parse_track_diagnostic_iff [of "[''10'', ''20'']" "''10|20''"]
      parse_track_diagnostic_iff [of "[''10'', '''']" "''10|''"]
      a b c t10 t20
    by simp
qed

section \<open>Properties of \<^verbatim>\<open>get_timings\<close>\<close>

subsection \<open>The pass over the end times\<close>

lemma adjust_end_times_fold:
  "adjust_end_times ts = (if length ts > 1 then fold fill_end [0..<length ts - 1] ts else ts)"
  unfolding adjust_end_times_def fill_end_def ..

text \<open>
  The list after the turns \<open>0\<close> to \<open>k - 1\<close>: the tracks before \<open>k\<close> that had no end time
  have the start time of their successor, every other track is as it was.
\<close>

lemma fold_fill_end:
  assumes "Suc k \<le> length ts"
  shows "length (fold fill_end [0..<k] ts) = length ts
       \<and> (\<forall>j<length ts. fold fill_end [0..<k] ts ! j =
             (if j < k \<and> end_time (ts ! j) = None
              then (ts ! j)\<lparr>end_time := Some (start_time (ts ! (j + 1)))\<rparr>
              else ts ! j))"
  using assms
proof (induction k)
  case 0
  then show ?case by simp
next
  case (Suc k)
  let ?res = "fold fill_end [0..<k] ts"
  from Suc have len: "length ?res = length ts"
    and nth: "\<And>j. j < length ts \<Longrightarrow> ?res ! j =
             (if j < k \<and> end_time (ts ! j) = None
              then (ts ! j)\<lparr>end_time := Some (start_time (ts ! (j + 1)))\<rparr>
              else ts ! j)"
    by simp_all
  from Suc.prems have k: "k < length ts" "Suc k < length ts"
    by simp_all
  have at_k: "?res ! k = ts ! k" and at_Suc: "?res ! Suc k = ts ! Suc k"
    using nth [of k] nth [of "Suc k"] k by simp_all
  have step: "fold fill_end [0..<Suc k] ts = fill_end k ?res"
    by simp
  show ?case
  proof (cases "end_time (ts ! k) = None")
    case True
    then have "fill_end k ?res =
        ?res[k := (ts ! k)\<lparr>end_time := Some (start_time (ts ! Suc k))\<rparr>]"
      by (simp add: fill_end_def at_k at_Suc)
    then show ?thesis
      using True len nth k by (auto simp: step nth_list_update less_Suc_eq)
  next
    case False
    then have "fill_end k ?res = ?res"
      by (simp add: fill_end_def at_k del: not_None_eq)
    then show ?thesis
      using False len nth by (auto simp: step less_Suc_eq simp del: not_None_eq)
  qed
qed

lemma adjust_end_times_length: "length (adjust_end_times ts) = length ts"
  using fold_fill_end [of "length ts - 1" ts] by (simp add: adjust_end_times_fold)

lemma adjust_end_times_nth:
  assumes "i < length ts"
  shows "adjust_end_times ts ! i =
     (if end_time (ts ! i) = None \<and> i + 1 < length ts
      then (ts ! i)\<lparr>end_time := Some (start_time (ts ! (i + 1)))\<rparr>
      else ts ! i)"
proof (cases "length ts > 1")
  case True
  then have "Suc (length ts - 1) \<le> length ts" by simp
  from fold_fill_end [OF this] assms True show ?thesis
    by (auto simp: adjust_end_times_fold)
next
  case False
  with assms show ?thesis
    by (simp add: adjust_end_times_def)
qed

subsection \<open>The loop over the lines\<close>

lemma get_next_line_Nil: "get_next_line [] = (([], 1), [])"
  by (simp add: get_next_line_eq strip_Nil)

lemma get_next_line_comment:
  "is_comment c \<Longrightarrow>
     get_next_line (c # r) = (case get_next_line r of ((l, n), r') \<Rightarrow> ((l, Suc n), r'))"
  by (simp add: get_next_line_eq)

lemma get_next_line_line: "\<not> is_comment l \<Longrightarrow> get_next_line (l # r) = ((strip l, 1), r)"
  by (simp add: get_next_line_eq)

lemma get_next_line_header:
  assumes "\<forall>c\<in>set cs. is_comment c" "\<not> is_comment p"
  shows "get_next_line (cs @ p # rest) = ((strip p, Suc (length cs)), rest)"
proof -
  have "dropWhile is_comment (cs @ p # rest) = p # rest"
    using assms by (simp add: dropWhile_append3)
  moreover have "takeWhile is_comment (cs @ p # rest) = cs"
    using assms by (simp add: takeWhile_append2)
  ultimately show ?thesis
    by (simp add: get_next_line_eq)
qed

lemma get_next_line_all_comments:
  assumes "\<forall>c\<in>set cs. is_comment c"
  shows "get_next_line cs = (([], Suc (length cs)), [])"
proof -
  have "dropWhile is_comment cs = []" "takeWhile is_comment cs = cs"
    using assms by simp_all
  then show ?thesis
    by (simp add: get_next_line_eq strip_Nil del: takeWhile_eq_all_conv dropWhile_eq_Nil_conv)
qed

lemma parse_track_Nil: "parse_track [] = Inl NeedStartAndName"
  by (simp add: parse_track_def)

lemma track_loop_read_loop:
  "track_loop tf line n reader ts =
     (if line \<noteq> [] then
        (case parse_track line of
           Inl err \<Rightarrow> Inl (TrackError err tf n)
         | Inr t \<Rightarrow> read_loop tf n reader (ts @ [t]))
      else Inr ts)"
  by (subst track_loop.simps) (simp add: read_loop_def split: sum.splits prod.splits)

lemma read_loop_Nil: "read_loop tf n [] ts = Inr ts"
  by (simp add: read_loop_def get_next_line_Nil track_loop_read_loop)

lemma read_loop_comment:
  "is_comment c \<Longrightarrow> read_loop tf n (c # r) ts = read_loop tf (Suc n) r ts"
  by (simp add: read_loop_def get_next_line_comment split: prod.splits)

lemma read_loop_line:
  "\<not> is_comment l \<Longrightarrow>
     read_loop tf n (l # r) ts =
       (if strip l = [] then Inr ts
        else case parse_track (strip l) of
               Inl err \<Rightarrow> Inl (TrackError err tf (Suc n))
             | Inr t \<Rightarrow> read_loop tf (Suc n) r (ts @ [t]))"
  by (simp add: read_loop_def get_next_line_line track_loop_read_loop split: sum.splits)

lemma get_timings_read_loop:
  "get_timings fe tf reader =
     (case get_next_line reader of
        ((line, lines), reader1) \<Rightarrow>
          if \<not> fe line then Inl (MusicFileMissing line tf)
          else (case read_loop tf lines reader1 [] of
                  Inl message \<Rightarrow> Inl message
                | Inr ts \<Rightarrow> Inr \<lparr>tracks = adjust_end_times ts, music_file = line\<rparr>))"
  by (simp add: get_timings_def read_loop_def split: prod.splits)

text \<open>
  A run of lines that are comments or parse as tracks is read through, and its tracks
  are collected in order.
\<close>

lemma read_loop_valid:
  assumes "list_all2 (\<lambda>l t. parse_track (strip l) = Inr t)
             (filter (\<lambda>l. \<not> is_comment l) mid) ts"
  shows "read_loop tf n (mid @ rest) acc = read_loop tf (n + length mid) rest (acc @ ts)"
  using assms
proof (induction mid arbitrary: n acc ts)
  case Nil
  then show ?case by simp
next
  case (Cons l mid)
  show ?case
  proof (cases "is_comment l")
    case True
    with Cons show ?thesis
      by (simp add: read_loop_comment)
  next
    case False
    with Cons.prems obtain t ts' where ts: "ts = t # ts'"
      and t: "parse_track (strip l) = Inr t"
      and rest: "list_all2 (\<lambda>l t. parse_track (strip l) = Inr t)
                   (filter (\<lambda>l. \<not> is_comment l) mid) ts'"
      by (auto simp: list_all2_Cons1)
    from t have "strip l \<noteq> []"
      using parse_track_Nil by auto
    with False t show ?thesis
      using Cons.IH [OF rest, of "Suc n" "acc @ [t]"] by (simp add: read_loop_line ts)
  qed
qed

subsection \<open>The music file\<close>

text \<open>
  C7. The timing file starts with comment lines \<open>cs\<close>, then the line \<open>p\<close> that is not a
  comment: \<open>strip p\<close> is the music file it declares. When that file does not exist,
  \<^verbatim>\<open>get_timings\<close> returns the one error that names the music file and the timing file,
  and no track. The lines \<open>rest\<close> after \<open>p\<close> are free in the statement and absent from the
  result: no track line is parsed.
\<close>

theorem get_timings_missing_music_file:
  assumes "\<forall>c\<in>set cs. is_comment c" "\<not> is_comment p" "\<not> file_exists (strip p)"
  shows "get_timings file_exists tf (cs @ p # rest) = Inl (MusicFileMissing (strip p) tf)"
  using assms by (simp add: get_timings_read_loop get_next_line_header)

text \<open>The theorem at a file of four lines whose music file is missing.\<close>

theorem get_timings_missing_music_file_witness:
  "get_timings (\<lambda>path. False) ''t.txt''
     [''#album\<newline>'', ''m.mp3\<newline>'', ''10|a\<newline>'', ''oops\<newline>''] =
   Inl (MusicFileMissing ''m.mp3'' ''t.txt'')"
  using get_timings_missing_music_file [of "[''#album\<newline>'']" "''m.mp3\<newline>''"
      "\<lambda>path. False" "''t.txt''" "[''10|a\<newline>'', ''oops\<newline>'']"]
  by (simp add: is_comment_def strip_def is_space_def)

subsection \<open>Files by their lines\<close>

text \<open>
  A timing file that starts with comment lines \<open>cs\<close>, the line \<open>p\<close> of the music file, and
  lines \<open>mid\<close> that are comments or parse as the tracks \<open>ts\<close>: what \<^verbatim>\<open>get_timings\<close> returns
  is decided by reading on from the lines \<open>rest\<close> with the tracks \<open>ts\<close> in hand.
\<close>

lemma get_timings_valid_prefix:
  assumes "\<forall>c\<in>set cs. is_comment c" "\<not> is_comment p"
    and "list_all2 (\<lambda>l t. parse_track (strip l) = Inr t)
           (filter (\<lambda>l. \<not> is_comment l) mid) ts"
  shows "get_timings fe tf (cs @ p # mid @ rest) =
     (if \<not> fe (strip p) then Inl (MusicFileMissing (strip p) tf)
      else (case read_loop tf (Suc (length cs) + length mid) rest ts of
              Inl message \<Rightarrow> Inl message
            | Inr ts' \<Rightarrow> Inr \<lparr>tracks = adjust_end_times ts', music_file = strip p\<rparr>))"
  using assms(1,2) read_loop_valid [OF assms(3), of tf "Suc (length cs)" rest "[]"]
  by (simp add: get_timings_read_loop get_next_line_header)

subsection \<open>A malformed line\<close>

text \<open>
  C6 as the specification states it: a timing file that holds a malformed line gives an
  error and no track list. In the file below the music file exists, the third line is
  empty and the fourth has no song name; the loop ends at the empty line, the fourth
  line is never read, and the result is a track list.
\<close>

theorem get_timings_malformed_after_blank_counterexample:
  "get_timings (\<lambda>path. True) ''t.txt''
     [''m.mp3\<newline>'', ''10|a\<newline>'', ''\<newline>'', ''garbage\<newline>''] =
   Inr \<lparr>tracks = [\<lparr>start_time = 10, end_time = None, song_name = ''a'', artist = None\<rparr>],
        music_file = ''m.mp3''\<rparr>
   \<and> parse_track (strip ''garbage\<newline>'') = Inl NeedStartAndName"
  by code_simp

text \<open>
  C6 (as amended). Let the lines of the timing file be comment lines \<open>cs\<close>, the line \<open>p\<close>
  of the music file, lines \<open>mid\<close> each of which is a comment or parses as a track (so none
  of them is empty once stripped), the line \<open>bad\<close>, which is not a comment, is not empty
  once stripped and on which \<^verbatim>\<open>parse_track\<close> returns the error \<open>err\<close>, and any lines
  \<open>rest\<close>. Then \<^verbatim>\<open>get_timings\<close> returns one error and no track list: the error \<open>err\<close> of the
  line \<open>bad\<close>, with the timing file and the position of \<open>bad\<close> in the file, when the music
  file exists, and the error of the music file when it does not. The tracks \<open>ts\<close> parsed
  before \<open>bad\<close> and the lines \<open>rest\<close> after it do not appear in the result.
\<close>

theorem get_timings_malformed_line:
  assumes "\<forall>c\<in>set cs. is_comment c" "\<not> is_comment p"
    and "list_all2 (\<lambda>l t. parse_track (strip l) = Inr t)
           (filter (\<lambda>l. \<not> is_comment l) mid) ts"
    and "\<not> is_comment bad" "strip bad \<noteq> []" "parse_track (strip bad) = Inl err"
  shows "get_timings fe tf (cs @ p # mid @ bad # rest) =
     (if fe (strip p) then Inl (TrackError err tf (length cs + 1 + length mid + 1))
      else Inl (MusicFileMissing (strip p) tf))"
  using assms(4-6) by (simp add: get_timings_valid_prefix [OF assms(1-3)] read_loop_line)

text \<open>The theorem at a file of seven lines whose sixth line has no song name.\<close>

theorem get_timings_malformed_line_witness:
  "get_timings (\<lambda>path. True) ''t.txt''
     [''#album\<newline>'', ''m.mp3\<newline>'', ''10|a\<newline>'', ''#x\<newline>'',
      ''20|25|b\<newline>'', ''garbage\<newline>'', ''30|c\<newline>''] =
   Inl (TrackError NeedStartAndName ''t.txt'' 6)"
proof -
  have s: "strip ''m.mp3\<newline>'' = ''m.mp3''" "strip ''10|a\<newline>'' = ''10|a''"
    "strip ''20|25|b\<newline>'' = ''20|25|b''" "strip ''garbage\<newline>'' = ''garbage''"
    by code_simp+
  have p: "parse_track ''10|a'' =
      Inr \<lparr>start_time = 10, end_time = None, song_name = ''a'', artist = None\<rparr>"
    "parse_track ''20|25|b'' =
      Inr \<lparr>start_time = 20, end_time = Some 25, song_name = ''b'', artist = None\<rparr>"
    "parse_track ''garbage'' = Inl NeedStartAndName"
    by code_simp+
  show ?thesis
    using get_timings_malformed_line [of "[''#album\<newline>'']" "''m.mp3\<newline>''"
        "[''10|a\<newline>'', ''#x\<newline>'', ''20|25|b\<newline>'']"
        "[\<lparr>start_time = 10, end_time = None, song_name = ''a'', artist = None\<rparr>,
          \<lparr>start_time = 20, end_time = Some 25, song_name = ''b'', artist = None\<rparr>]"
        "''garbage\<newline>''" NeedStartAndName "\<lambda>path. True" "''t.txt''"
        "[''30|c\<newline>'']"]
    by (simp add: is_comment_def s p)
qed

subsection \<open>The lines that reach \<^verbatim>\<open>parse_track\<close>\<close>

text \<open>
  C8 as the specification states it: every line after the music file that is neither a
  comment nor empty is parsed, also after an empty line. In the file below the third
  line holds blanks only and the fourth is a good track line; the result has the track
  of the second line only.
\<close>

theorem get_timings_line_after_blank_counterexample:
  "get_timings (\<lambda>path. True) ''t.txt''
     [''m.mp3\<newline>'', ''10|a\<newline>'', ''   \<newline>'', ''20|b\<newline>''] =
   Inr \<lparr>tracks = [\<lparr>start_time = 10, end_time = None, song_name = ''a'', artist = None\<rparr>],
        music_file = ''m.mp3''\<rparr>
   \<and> parse_track (strip ''20|b\<newline>'') =
       Inr \<lparr>start_time = 20, end_time = None, song_name = ''b'', artist = None\<rparr>"
  by code_simp

text \<open>
  C8 (as amended). Every line after the line of the music file that is not a comment is
  passed to \<^verbatim>\<open>parse_track\<close>, up to the first line that is empty once stripped or to the
  end of the file: when the lines \<open>mid\<close> parse as the tracks \<open>ts\<close>, the result holds
  exactly these tracks, in order, with their end times adjusted. The first line that is
  empty once stripped ends the reading: whatever lines \<open>rest\<close> follow it, the result is
  the same as if the file ended there.
\<close>

theorem get_timings_reads_to_blank_line:
  assumes "\<forall>c\<in>set cs. is_comment c" "\<not> is_comment p" "fe (strip p)"
    and "list_all2 (\<lambda>l t. parse_track (strip l) = Inr t)
           (filter (\<lambda>l. \<not> is_comment l) mid) ts"
    and "\<not> is_comment blank" "strip blank = []"
  shows "get_timings fe tf (cs @ p # mid) =
           Inr \<lparr>tracks = adjust_end_times ts, music_file = strip p\<rparr>
       \<and> get_timings fe tf (cs @ p # mid @ blank # rest) =
           Inr \<lparr>tracks = adjust_end_times ts, music_file = strip p\<rparr>"
  using assms(3,5,6) get_timings_valid_prefix [OF assms(1,2,4), of fe tf "[]"]
    get_timings_valid_prefix [OF assms(1,2,4), of fe tf "blank # rest"]
  by (simp add: read_loop_line read_loop_Nil)

text \<open>
  The theorem at a file of two track lines, and at the same file followed by a line of
  blanks and a third track line.
\<close>

theorem get_timings_reads_to_blank_line_witness:
  "get_timings (\<lambda>path. True) ''t.txt''
     [''#album\<newline>'', ''m.mp3\<newline>'', ''10|a\<newline>'', ''#x\<newline>'',
      ''20|25|b\<newline>''] =
   Inr \<lparr>tracks = [\<lparr>start_time = 10, end_time = Some 20, song_name = ''a'', artist = None\<rparr>,
                  \<lparr>start_time = 20, end_time = Some 25, song_name = ''b'', artist = None\<rparr>],
        music_file = ''m.mp3''\<rparr>
   \<and> get_timings (\<lambda>path. True) ''t.txt''
     [''#album\<newline>'', ''m.mp3\<newline>'', ''10|a\<newline>'', ''#x\<newline>'',
      ''20|25|b\<newline>'', ''  \<newline>'', ''30|c\<newline>''] =
   Inr \<lparr>tracks = [\<lparr>start_time = 10, end_time = Some 20, song_name = ''a'', artist = None\<rparr>,
                  \<lparr>start_time = 20, end_time = Some 25, song_name = ''b'', artist = None\<rparr>],
        music_file = ''m.mp3''\<rparr>"
proof -
  have s: "strip ''m.mp3\<newline>'' = ''m.mp3''" "strip ''10|a\<newline>'' = ''10|a''"
    "strip ''20|25|b\<newline>'' = ''20|25|b''" "strip ''  \<newline>'' = []"
    by code_simp+
  have p: "parse_track ''10|a'' =
      Inr \<lparr>start_time = 10, end_time = None, song_name = ''a'', artist = None\<rparr>"
    "parse_track ''20|25|b'' =
      Inr \<lparr>start_time = 20, end_time = Some 25, song_name = ''b'', artist = None\<rparr>"
    by code_simp+
  have a: "adjust_end_times
      [\<lparr>start_time = 10, end_time = None, song_name = ''a'', artist = None\<rparr>,
       \<lparr>start_time = 20, end_time = Some 25, song_name = ''b'', artist = None\<rparr>] =
      [\<lparr>start_time = 10, end_time = Some 20, song_name = ''a'', artist = None\<rparr>,
       \<lparr>start_time = 20, end_time = Some 25, song_name = ''b'', artist = None\<rparr>]"
    by code_simp
  show ?thesis
    using get_timings_reads_to_blank_line [of "[''#album\<newline>'']" "''m.mp3\<newline>''"
        "\<lambda>path. True"
        "[''10|a\<newline>'', ''#x\<newline>'', ''20|25|b\<newline>'']"
        "[\<lparr>start_time = 10, end_time = None, song_name = ''a'', artist = None\<rparr>,
          \<lparr>start_time = 20, end_time = Some 25, song_name = ''b'', artist = None\<rparr>]"
        "''  \<newline>''" "''t.txt''" "[''30|c\<newline>'']"]
    by (simp add: is_comment_def s p a)
qed

subsection \<open>The end times\<close>

text \<open>
  C3. Let the timing file be comment lines \<open>cs\<close>, the line \<open>p\<close> of a music file that exists,
  and lines \<open>mid\<close> that are comments or parse as the tracks \<open>ts\<close>. Then \<^verbatim>\<open>get_timings\<close>
  returns as many tracks as \<open>ts\<close>; the track at \<open>i\<close> is \<open>ts ! i\<close> with the start time of
  \<open>ts ! (i + 1)\<close> for its end time when \<open>ts ! i\<close> has no end time and is not the last
  track, and is \<open>ts ! i\<close> unchanged otherwise. So the last track keeps an absent end
  time, and a file of no track or of one track is returned as it was parsed.
\<close>

theorem get_timings_end_times:
  assumes "\<forall>c\<in>set cs. is_comment c" "\<not> is_comment p" "fe (strip p)"
    and "list_all2 (\<lambda>l t. parse_track (strip l) = Inr t)
           (filter (\<lambda>l. \<not> is_comment l) mid) ts"
  shows "\<exists>r. get_timings fe tf (cs @ p # mid) = Inr r
           \<and> length (tracks r) = length ts
           \<and> (\<forall>i<length ts. tracks r ! i =
                 (if end_time (ts ! i) = None \<and> i + 1 < length ts
                  then (ts ! i)\<lparr>end_time := Some (start_time (ts ! (i + 1)))\<rparr>
                  else ts ! i))
           \<and> (length ts \<le> 1 \<longrightarrow> tracks r = ts)"
proof -
  have "get_timings fe tf (cs @ p # mid) =
      Inr \<lparr>tracks = adjust_end_times ts, music_file = strip p\<rparr>"
    using assms(3) get_timings_valid_prefix [OF assms(1,2,4), of fe tf "[]"]
    by (simp add: read_loop_Nil)
  moreover have "length ts \<le> 1 \<longrightarrow> adjust_end_times ts = ts"
    by (simp add: adjust_end_times_def)
  ultimately show ?thesis
    by (simp add: adjust_end_times_length adjust_end_times_nth)
qed

text \<open>
  The theorem at a file of three tracks: the first gets the start time of the second,
  the second keeps its own end time, the third stays without one.
\<close>

theorem get_timings_end_times_witness:
  "\<exists>r. get_timings (\<lambda>path. True) ''t.txt''
          [''m.mp3\<newline>'', ''10|a\<newline>'', ''20|25|b\<newline>'', ''30|c\<newline>''] = Inr r
      \<and> length (tracks r) = 3
      \<and> tracks r ! 0 = \<lparr>start_time = 10, end_time = Some 20, song_name = ''a'', artist = None\<rparr>
      \<and> tracks r ! 1 = \<lparr>start_time = 20, end_time = Some 25, song_name = ''b'', artist = None\<rparr>
      \<and> tracks r ! 2 = \<lparr>start_time = 30, end_time = None, song_name = ''c'', artist = None\<rparr>"
proof -
  have s: "strip ''m.mp3\<newline>'' = ''m.mp3''" "strip ''10|a\<newline>'' = ''10|a''"
    "strip ''20|25|b\<newline>'' = ''20|25|b''" "strip ''30|c\<newline>'' = ''30|c''"
    by code_simp+
  have p: "parse_track ''10|a'' =
      Inr \<lparr>start_time = 10, end_time = None, song_name = ''a'', artist = None\<rparr>"
    "parse_track ''20|25|b'' =
      Inr \<lparr>start_time = 20, end_time = Some 25, song_name = ''b'', artist = None\<rparr>"
    "parse_track ''30|c'' =
      Inr \<lparr>start_time = 30, end_time = None, song_name = ''c'', artist = None\<rparr>"
    by code_simp+
  let ?ts = "[\<lparr>start_time = 10, end_time = None, song_name = ''a'', artist = None\<rparr>,
          \<lparr>start_time = 20, end_time = Some 25, song_name = ''b'', artist = None\<rparr>,
          \<lparr>start_time = 30, end_time = None, song_name = ''c'', artist = None\<rparr>]"
  have "\<exists>r. get_timings (\<lambda>path. True) ''t.txt''
          ([] @ ''m.mp3\<newline>'' # [''10|a\<newline>'', ''20|25|b\<newline>'', ''30|c\<newline>'']) = Inr r
           \<and> length (tracks r) = length ?ts
           \<and> (\<forall>i<length ?ts. tracks r ! i =
                 (if end_time (?ts ! i) = None \<and> i + 1 < length ?ts
                  then (?ts ! i)\<lparr>end_time := Some (start_time (?ts ! (i + 1)))\<rparr>
                  else ?ts ! i))
           \<and> (length ?ts \<le> 1 \<longrightarrow> tracks r = ?ts)"
    by (rule get_timings_end_times) (simp_all add: is_comment_def s p)
  then obtain r where r: "get_timings (\<lambda>path. True) ''t.txt''
          [''m.mp3\<newline>'', ''10|a\<newline>'', ''20|25|b\<newline>'', ''30|c\<newline>''] = Inr r"
    and len: "length (tracks r) = 3"
    and nth: "\<And>i. i < 3 \<Longrightarrow> tracks r ! i =
                 (if end_time (?ts ! i) = None \<and> i + 1 < 3
                  then (?ts ! i)\<lparr>end_time := Some (start_time (?ts ! (i + 1)))\<rparr>
                  else ?ts ! i)"
    by auto
  show ?thesis
    using r len nth [of 0] nth [of 1] nth [of 2] by simp
qed

subsection \<open>Comment lines\<close>







end
